theory Spec2Isabelle
  imports Main
begin

section \<open>butil::ScopeGuard (src/butil/memory/scope_guard.h)\<close>

text \<open>
  The header defines one class template, \<^verbatim>\<open>ScopeGuard<Callback>\<close>, its factory
  \<^verbatim>\<open>MakeScopeGuard\<close>, and the macro \<^verbatim>\<open>BRPC_SCOPE_EXIT\<close>. The embedding has three layers:
  \<^item> the class itself: a record of its two data members and one function for each
    member function (constructor, move constructor, destructor, \<^verbatim>\<open>dismiss\<close>);
  \<^item> the macros, as functions on the preprocessor's \<^verbatim>\<open>__COUNTER__\<close>;
  \<^item> the C++ block in which guards live: declarations, ordinary statements, exceptions,
    and the destruction of the block's automatic objects in reverse order of declaration.
\<close>

subsection \<open>Calls, exceptions and the observable state\<close>

text \<open>
  How a call completes: it returns, it throws an exception \<open>e\<close>, or \<^verbatim>\<open>std::terminate\<close>
  has been called.
\<close>

datatype 'e completion = Normal | Thrown 'e | Terminated

text \<open>
  A callable taking no argument and returning \<^verbatim>\<open>void\<close> (what \<^verbatim>\<open>returns_void_t\<close> demands of
  \<^verbatim>\<open>Callback\<close>): all it can do is change the program state \<open>'w\<close> it reaches, and
  complete. It reads the state at the moment it is invoked.
\<close>

type_synonym ('w, 'e) callable = "'w \<Rightarrow> 'e completion \<times> 'w"

text \<open>
  The execution state: the program's own state, and a history of the callables that
  guards have invoked so far, oldest first. The history is what "invoked exactly once"
  is read from; no callable can see or change it.
\<close>

record ('w, 'e) exec =
  world :: 'w
  invoked :: "('w, 'e) callable list"

text \<open>A function declared \<^verbatim>\<open>noexcept\<close>: an exception leaving it calls \<^verbatim>\<open>std::terminate\<close>.\<close>

definition noexcept :: "'e completion \<Rightarrow> 'e completion" where
  "noexcept c = (case c of Thrown e \<Rightarrow> Terminated | _ \<Rightarrow> c)"

text \<open>The call \<^verbatim>\<open>_callback()\<close>: run the callable on the state and record the invocation.\<close>

definition invoke :: "('w, 'e) callable \<Rightarrow> ('w, 'e) exec \<Rightarrow> 'e completion \<times> ('w, 'e) exec" where
  "invoke f s =
     (case f (world s) of
        (c, w) \<Rightarrow> (c, \<lparr>world = w, invoked = invoked s @ [f]\<rparr>))"

subsection \<open>The class ScopeGuard\<close>

text \<open>The data members \<^verbatim>\<open>Callback _callback; bool _dismiss;\<close>.\<close>

record ('w, 'e) ScopeGuard =
  m_callback :: "('w, 'e) callable"
  m_dismiss :: bool

text \<open>
  \<^verbatim>\<open>explicit ScopeGuard(Callback&& callback)
     : _callback(std::forward<Callback>(callback)), _dismiss(false) {}\<close>

  The parameter of the function is the callable that \<^verbatim>\<open>_callback\<close> is once the
  initialiser has run; \<open>forwarded\<close> below says what that is for an rvalue and for an
  lvalue argument.
\<close>

definition ScopeGuard_ctor :: "('w, 'e) callable \<Rightarrow> ('w, 'e) ScopeGuard" where
  "ScopeGuard_ctor callback = \<lparr>m_callback = callback, m_dismiss = False\<rparr>"

text \<open>\<^verbatim>\<open>void dismiss() noexcept { _dismiss = true; }\<close>\<close>

definition dismiss :: "('w, 'e) ScopeGuard \<Rightarrow> ('w, 'e) ScopeGuard" where
  "dismiss g = g\<lparr>m_dismiss := True\<rparr>"

text \<open>
  \<^verbatim>\<open>ScopeGuard(ScopeGuard&& other) : _callback(std::move(other._callback)),
     _dismiss(other._dismiss) { other.dismiss(); }\<close>

  The result is the pair of the new guard and \<open>other\<close> as the constructor leaves it.
  What \<^verbatim>\<open>std::move\<close> leaves in \<open>other._callback\<close> is up to the move constructor of
  \<^verbatim>\<open>Callback\<close> (nothing changes for a function pointer, a \<^verbatim>\<open>std::function\<close> is left
  unspecified): it is the parameter \<open>husk\<close>, and every theorem holds for any \<open>husk\<close>.
\<close>

definition ScopeGuard_move ::
  "(('w, 'e) callable \<Rightarrow> ('w, 'e) callable) \<Rightarrow> ('w, 'e) ScopeGuard
     \<Rightarrow> ('w, 'e) ScopeGuard \<times> ('w, 'e) ScopeGuard" where
  "ScopeGuard_move husk other =
     (\<lparr>m_callback = m_callback other, m_dismiss = m_dismiss other\<rparr>,
      dismiss (other\<lparr>m_callback := husk (m_callback other)\<rparr>))"

text \<open>
  \<^verbatim>\<open>~ScopeGuard() noexcept { if(!_dismiss) { _callback(); } }\<close>
\<close>

definition ScopeGuard_dtor ::
  "('w, 'e) ScopeGuard \<Rightarrow> ('w, 'e) exec \<Rightarrow> 'e completion \<times> ('w, 'e) exec" where
  "ScopeGuard_dtor g s =
     (if \<not> m_dismiss g
      then (case invoke (m_callback g) s of (c, s') \<Rightarrow> (noexcept c, s'))
      else (Normal, s))"

text \<open>
  \<^verbatim>\<open>MakeScopeGuard(Callback&& callback) { return ScopeGuard<Callback>{ std::forward<Callback>(callback)}; }\<close>

  The function body, for the callable that \<^verbatim>\<open>std::forward<Callback>(callback)\<close> hands to
  the constructor.
\<close>

definition MakeScopeGuard :: "('w, 'e) callable \<Rightarrow> ('w, 'e) ScopeGuard" where
  "MakeScopeGuard callback = ScopeGuard_ctor callback"

text \<open>
  \<^verbatim>\<open>operator+(ScopeExitHelper, Callback&& callback) { return MakeScopeGuard(std::forward<Callback>(callback)); }\<close>
\<close>

definition ScopeExitHelper_plus :: "('w, 'e) callable \<Rightarrow> ('w, 'e) ScopeGuard" where
  "ScopeExitHelper_plus callback = MakeScopeGuard callback"


subsection \<open>Arguments: rvalues and lvalues\<close>






subsection \<open>The macros\<close>

text \<open>
  The lambda \<^verbatim>\<open>[&]() noexcept { body }\<close> that \<^verbatim>\<open>BRPC_SCOPE_EXIT\<close> puts before the caller's
  block. It captures by reference: the block works on the state as it is when the lambda
  is called.
\<close>

definition noexcept_lambda :: "('w, 'e) callable \<Rightarrow> ('w, 'e) callable" where
  "noexcept_lambda body = (\<lambda>w. case body w of (c, w') \<Rightarrow> (noexcept c, w'))"

text \<open>The decimal digits of \<^verbatim>\<open>__COUNTER__\<close>, as the preprocessor writes them.\<close>

definition digit :: "nat \<Rightarrow> char" where
  "digit d = char_of (48 + d)"

fun decimal :: "nat \<Rightarrow> string" where
  "decimal n = (if n < 10 then [digit n] else decimal (n div 10) @ [digit (n mod 10)])"

declare decimal.simps [simp del]

text \<open>
  Modelled from the spec: \<^verbatim>\<open>BAIDU_CONCAT\<close> is defined in butil/macros.h, which is not
  among the sources. The spec calls it the macro-concatenation helper that generates
  anonymous variable names: it pastes its two (expanded) arguments into one identifier.
\<close>

definition BAIDU_CONCAT :: "string \<Rightarrow> string \<Rightarrow> string" where
  "BAIDU_CONCAT a b = a @ b"

text \<open>
  \<^verbatim>\<open>#define BRPC_ANONYMOUS_VARIABLE(prefix) BAIDU_CONCAT(prefix, __COUNTER__)\<close>

  \<^verbatim>\<open>__COUNTER__\<close> expands to the counter's value and increments it: the function takes the
  counter and returns the identifier and the counter after the expansion.
\<close>

definition BRPC_ANONYMOUS_VARIABLE :: "string \<Rightarrow> nat \<Rightarrow> string \<times> nat" where
  "BRPC_ANONYMOUS_VARIABLE prefix counter = (BAIDU_CONCAT prefix (decimal counter), Suc counter)"

subsection \<open>Blocks\<close>

text \<open>
  The initialiser of a guard's declaration: \<^verbatim>\<open>MakeScopeGuard(f)\<close>,
  \<^verbatim>\<open>ScopeExitHelper() + f\<close>, or \<^verbatim>\<open>std::move(y)\<close> for a guard \<open>y\<close> of the block.
  As for the factory, \<open>f\<close> is the callable that the guard's \<^verbatim>\<open>_callback\<close> is after the
  call: \<open>forwarded a\<close> for an argument \<open>a\<close>.
\<close>

datatype ('w, 'e) init =
    Make "('w, 'e) callable"
  | Plus "('w, 'e) callable"
  | MoveFrom string "('w, 'e) callable \<Rightarrow> ('w, 'e) callable"

text \<open>
  The statements of a block: any statement that has nothing to do with guards
  (\<open>Exec\<close>), \<^verbatim>\<open>auto x = init;\<close> and \<^verbatim>\<open>x.dismiss();\<close>.
\<close>

datatype ('w, 'e) stmt =
    Exec "('w, 'e) callable"
  | Decl string "('w, 'e) init"
  | Dismiss string

text \<open>The guards of the block, in the order of their declarations.\<close>

type_synonym ('w, 'e) locals = "(string \<times> ('w, 'e) ScopeGuard) list"

fun update_guard :: "string \<Rightarrow> ('w, 'e) ScopeGuard \<Rightarrow> ('w, 'e) locals \<Rightarrow> ('w, 'e) locals" where
  "update_guard x g [] = []"
| "update_guard x g ((y, h) # L) =
     (if x = y then (y, g) # L else (y, h) # update_guard x g L)"

text \<open>\<open>None\<close>: the initialiser names a guard that the block has not declared.\<close>

fun eval_init ::
  "('w, 'e) init \<Rightarrow> ('w, 'e) locals \<Rightarrow> (('w, 'e) ScopeGuard \<times> ('w, 'e) locals) option" where
  "eval_init (Make f) L = Some (MakeScopeGuard f, L)"
| "eval_init (Plus f) L = Some (ScopeExitHelper_plus f, L)"
| "eval_init (MoveFrom y husk) L =
     (case map_of L y of
        None \<Rightarrow> None
      | Some a \<Rightarrow>
          (case ScopeGuard_move husk a of (b, a') \<Rightarrow> Some (b, update_guard y a' L)))"

text \<open>
  Destroying objects one after the other. A destructor that does not return normally
  has called \<^verbatim>\<open>std::terminate\<close>: nothing runs after it.
\<close>

fun destroy ::
  "('w, 'e) ScopeGuard list \<Rightarrow> ('w, 'e) exec \<Rightarrow> 'e completion \<times> ('w, 'e) exec" where
  "destroy [] s = (Normal, s)"
| "destroy (g # gs) s =
     (case ScopeGuard_dtor g s of
        (Normal, s') \<Rightarrow> destroy gs s'
      | (c, s') \<Rightarrow> (c, s'))"

text \<open>Leaving the block destroys its guards, the last declared first.\<close>

definition leave_scope :: "('w, 'e) locals \<Rightarrow> ('w, 'e) exec \<Rightarrow> 'e completion \<times> ('w, 'e) exec" where
  "leave_scope L s = destroy (rev (map snd L)) s"

text \<open>
  Stack unwinding: the exception \<open>e\<close> leaves the block once the block's guards are
  destroyed.
\<close>

definition unwind ::
  "'e \<Rightarrow> ('w, 'e) locals \<Rightarrow> ('w, 'e) exec \<Rightarrow> 'e completion \<times> ('w, 'e) exec" where
  "unwind e L s =
     (case leave_scope L s of
        (Normal, s') \<Rightarrow> (Thrown e, s')
      | (c, s') \<Rightarrow> (c, s'))"

text \<open>
  Running the statements of a block from the guards \<open>L\<close> declared so far. \<open>None\<close>: the
  block is ill-formed (a name declared twice, or used before its declaration) and the
  compiler rejects it.
\<close>

fun run ::
  "('w, 'e) stmt list \<Rightarrow> ('w, 'e) locals \<Rightarrow> ('w, 'e) exec
     \<Rightarrow> ('e completion \<times> ('w, 'e) exec) option" where
  "run [] L s = Some (leave_scope L s)"
| "run (Exec f # ps) L s =
     (case f (world s) of
        (Normal, w) \<Rightarrow> run ps L (s\<lparr>world := w\<rparr>)
      | (Thrown e, w) \<Rightarrow> Some (unwind e L (s\<lparr>world := w\<rparr>))
      | (Terminated, w) \<Rightarrow> Some (Terminated, s\<lparr>world := w\<rparr>))"
| "run (Decl x i # ps) L s =
     (if x \<in> fst ` set L then None
      else (case eval_init i L of
              None \<Rightarrow> None
            | Some (g, L') \<Rightarrow> run ps (L' @ [(x, g)]) s))"
| "run (Dismiss x # ps) L s =
     (case map_of L x of
        None \<Rightarrow> None
      | Some g \<Rightarrow> run ps (update_guard x (dismiss g) L) s)"

definition run_block ::
  "('w, 'e) stmt list \<Rightarrow> ('w, 'e) exec \<Rightarrow> ('e completion \<times> ('w, 'e) exec) option" where
  "run_block ps s = run ps [] s"

text \<open>
  \<^verbatim>\<open>#define BRPC_SCOPE_EXIT auto BRPC_ANONYMOUS_VARIABLE(SCOPE_EXIT) =
       ::butil::internal::ScopeExitHelper() + [&]() noexcept\<close>

  followed by the caller's block \<open>body\<close>: one declaration, and the counter after it.
\<close>

definition BRPC_SCOPE_EXIT :: "('w, 'e) callable \<Rightarrow> nat \<Rightarrow> ('w, 'e) stmt \<times> nat" where
  "BRPC_SCOPE_EXIT body counter =
     (case BRPC_ANONYMOUS_VARIABLE ''SCOPE_EXIT'' counter of
        (name, counter') \<Rightarrow> (Decl name (Plus (noexcept_lambda body)), counter'))"

text \<open>
  A block as the programmer writes it: statements, and uses of \<^verbatim>\<open>BRPC_SCOPE_EXIT { body };\<close>.
  The preprocessor expands the uses from left to right.
\<close>

datatype ('w, 'e) item = Stmt "('w, 'e) stmt" | ScopeExit "('w, 'e) callable"

fun preprocess :: "('w, 'e) item list \<Rightarrow> nat \<Rightarrow> ('w, 'e) stmt list" where
  "preprocess [] counter = []"
| "preprocess (Stmt p # is) counter = p # preprocess is counter"
| "preprocess (ScopeExit body # is) counter =
     (case BRPC_SCOPE_EXIT body counter of
        (d, counter') \<Rightarrow> d # preprocess is counter')"

text \<open>
  Ordinary statements alone, until one does not return: the state they leave and how
  the last one completed.
\<close>

fun exec_all :: "('w, 'e) callable list \<Rightarrow> 'w \<Rightarrow> 'e completion \<times> 'w" where
  "exec_all [] w = (Normal, w)"
| "exec_all (f # fs) w =
     (case f w of
        (Normal, w') \<Rightarrow> exec_all fs w'
      | (c, w') \<Rightarrow> (c, w'))"

subsection \<open>Histories of one guard\<close>

text \<open>
  What can happen to a guard between its construction and its destruction: a call of
  \<^verbatim>\<open>dismiss()\<close>, or being the argument \<open>other\<close> of the move constructor (with what the
  move leaves of its callback).
\<close>

datatype ('w, 'e) guard_op = Call_dismiss | Moved_from "('w, 'e) callable \<Rightarrow> ('w, 'e) callable"

fun apply_op :: "('w, 'e) ScopeGuard \<Rightarrow> ('w, 'e) guard_op \<Rightarrow> ('w, 'e) ScopeGuard" where
  "apply_op g Call_dismiss = dismiss g"
| "apply_op g (Moved_from husk) = snd (ScopeGuard_move husk g)"

section \<open>Properties\<close>

subsection \<open>Auxiliary facts\<close>

text \<open>The destructor, case by case.\<close>

lemma dtor_dismissed: "m_dismiss g \<Longrightarrow> ScopeGuard_dtor g s = (Normal, s)"
  by (simp add: ScopeGuard_dtor_def)

lemma dtor_armed:
  "\<not> m_dismiss g \<Longrightarrow>
   ScopeGuard_dtor g s =
     (noexcept (fst (m_callback g (world s))),
      \<lparr>world = snd (m_callback g (world s)), invoked = invoked s @ [m_callback g]\<rparr>)"
  by (simp add: ScopeGuard_dtor_def invoke_def split: prod.splits)

lemma noexcept_not_Thrown: "noexcept c \<noteq> Thrown e"
  by (cases c) (simp_all add: noexcept_def)

lemma dtor_Make:
  "ScopeGuard_dtor (MakeScopeGuard f) s =
     (noexcept (fst (f (world s))), \<lparr>world = snd (f (world s)), invoked = invoked s @ [f]\<rparr>)"
  by (simp add: MakeScopeGuard_def ScopeGuard_ctor_def dtor_armed)

lemma dtor_not_Thrown: "fst (ScopeGuard_dtor g s) \<noteq> Thrown e"
  by (simp add: ScopeGuard_dtor_def noexcept_not_Thrown split: prod.splits)

lemma dtor_moved_from: "ScopeGuard_dtor (snd (ScopeGuard_move husk A)) s = (Normal, s)"
  by (simp add: ScopeGuard_move_def dismiss_def dtor_dismissed)

lemma dtor_moved_to: "ScopeGuard_dtor (fst (ScopeGuard_move husk A)) s = ScopeGuard_dtor A s"
  by (simp add: ScopeGuard_move_def ScopeGuard_dtor_def)

lemma noexcept_idem: "noexcept (noexcept c) = noexcept c"
  by (cases c) (simp_all add: noexcept_def)

lemma dtor_Plus_lambda:
  "ScopeGuard_dtor (ScopeExitHelper_plus (noexcept_lambda body)) s =
     (noexcept (fst (body (world s))),
      \<lparr>world = snd (body (world s)), invoked = invoked s @ [noexcept_lambda body]\<rparr>)"
  by (simp add: ScopeExitHelper_plus_def dtor_Make noexcept_lambda_def noexcept_idem
      split: prod.splits)

text \<open>Destroying one guard and two guards.\<close>

lemma leave_scope_single:
  "leave_scope [(x, g)] s = ScopeGuard_dtor g s"
  by (cases "ScopeGuard_dtor g s"; cases "fst (ScopeGuard_dtor g s)")
     (simp_all add: leave_scope_def)

lemma destroy_two:
  "destroy [g, h] s =
     (case ScopeGuard_dtor g s of
        (Normal, s') \<Rightarrow> ScopeGuard_dtor h s'
      | (c, s') \<Rightarrow> (c, s'))"
  by (cases "ScopeGuard_dtor g s"; cases "fst (ScopeGuard_dtor g s)";
      cases "ScopeGuard_dtor h (snd (ScopeGuard_dtor g s))";
      cases "fst (ScopeGuard_dtor h (snd (ScopeGuard_dtor g s)))")
     simp_all

text \<open>
  A run of ordinary statements inside a block behaves as \<open>exec_all\<close> says, whatever
  guards the block holds.
\<close>

lemma run_Exec_list:
  "run (map Exec fs @ ps) L s =
     (case exec_all fs (world s) of
        (Normal, w) \<Rightarrow> run ps L (s\<lparr>world := w\<rparr>)
      | (Thrown e, w) \<Rightarrow> Some (unwind e L (s\<lparr>world := w\<rparr>))
      | (Terminated, w) \<Rightarrow> Some (Terminated, s\<lparr>world := w\<rparr>))"
proof (induction fs arbitrary: s)
  case Nil
  show ?case by simp
next
  case (Cons f fs)
  obtain c w where fw: "f (world s) = (c, w)" by (cases "f (world s)")
  show ?case
  proof (cases c)
    case Normal
    with fw Cons.IH [of "s\<lparr>world := w\<rparr>"] show ?thesis
      by (simp split: prod.splits completion.splits)
  next
    case (Thrown e)
    with fw show ?thesis by simp
  next
    case Terminated
    with fw show ?thesis by simp
  qed
qed

text \<open>Repeated calls of \<^verbatim>\<open>dismiss()\<close>.\<close>

lemma dismiss_funpow: "(dismiss ^^ Suc n) g = dismiss g"
  by (induction n) (simp_all add: dismiss_def)

lemma run_Dismiss_replicate:
  "run (replicate n (Dismiss x) @ ps) [(x, g)] s = run ps [(x, (dismiss ^^ n) g)] s"
proof (induction n arbitrary: g)
  case 0
  show ?case by simp
next
  case (Suc n)
  have "run (replicate (Suc n) (Dismiss x) @ ps) [(x, g)] s =
          run (replicate n (Dismiss x) @ ps) [(x, dismiss g)] s"
    by simp
  also have "\<dots> = run ps [(x, (dismiss ^^ n) (dismiss g))] s"
    by (rule Suc.IH)
  finally show ?case by (simp add: funpow_swap1)
qed

lemma apply_op_dismissed: "m_dismiss g \<Longrightarrow> m_dismiss (apply_op g op)"
  by (cases op) (simp_all add: dismiss_def ScopeGuard_move_def)

lemma foldl_apply_op_dismissed: "m_dismiss g \<Longrightarrow> m_dismiss (foldl apply_op g ops)"
  by (induction ops arbitrary: g) (simp_all add: apply_op_dismissed)

text \<open>The decimal notation is injective, hence so are the generated names.\<close>

lemma digit_inj: "a < 10 \<Longrightarrow> b < 10 \<Longrightarrow> digit a = digit b \<Longrightarrow> a = b"
proof -
  assume a: "a < 10" and b: "b < 10" and e: "digit a = digit b"
  from e have "(char_of (48 + a) :: char) = char_of (48 + b)"
    unfolding digit_def .
  moreover have "48 + a \<in> {0..<256}" and "48 + b \<in> {0..<256}"
    using a b by simp_all
  ultimately have "48 + a = 48 + b"
    by (rule inj_onD [OF inj_on_char_of_nat])
  then show "a = b" by simp
qed

lemma decimal_not_Nil: "decimal n \<noteq> []"
  by (subst decimal.simps) simp

lemma decimal_last: "last (decimal n) = digit (n mod 10)"
  by (subst decimal.simps) (simp add: decimal_not_Nil)

lemma decimal_butlast: "butlast (decimal n) = (if n < 10 then [] else decimal (n div 10))"
  by (subst decimal.simps) (simp add: decimal_not_Nil)

lemma decimal_inj: "decimal m = decimal n \<Longrightarrow> m = n"
proof (induction m arbitrary: n rule: decimal.induct)
  case (1 m)
  from "1.prems" have l: "digit (m mod 10) = digit (n mod 10)"
    by (metis decimal_last)
  then have lm: "m mod 10 = n mod 10" by (intro digit_inj) simp_all
  from "1.prems" have b: "(if m < 10 then [] else decimal (m div 10)) = (if n < 10 then [] else decimal (n div 10))"
    by (metis decimal_butlast)
  show ?case
  proof (cases "m < 10")
    case True
    with b have "n < 10" using decimal_not_Nil [of "n div 10"] by (auto split: if_splits)
    with True lm show ?thesis by simp
  next
    case False
    with b have n: "\<not> n < 10" using decimal_not_Nil [of "m div 10"] by (auto split: if_splits)
    with False b have "decimal (m div 10) = decimal (n div 10)" by simp
    with "1.IH" False have "m div 10 = n div 10" by simp
    with lm show ?thesis by (metis div_mult_mod_eq)
  qed
qed

lemma anonymous_name: "fst (BRPC_ANONYMOUS_VARIABLE p c) = p @ decimal c"
  by (simp add: BRPC_ANONYMOUS_VARIABLE_def BAIDU_CONCAT_def)

lemma anonymous_name_inj: "inj (\<lambda>c. fst (BRPC_ANONYMOUS_VARIABLE p c))"
  by (rule injI) (simp add: anonymous_name decimal_inj)

lemma preprocess_Exec:
  "preprocess (map (Stmt \<circ> Exec) fs @ is) c = map Exec fs @ preprocess is c"
  by (induction fs) simp_all

subsection \<open>Exactly once at the end of the block\<close>

text \<open>
  Claim C1. A block declares a guard with \<^verbatim>\<open>MakeScopeGuard(f)\<close>, anywhere among ordinary
  statements that all return, and neither dismisses nor moves it. Then the block is
  well-formed and \<open>f\<close> is invoked exactly once: the history grows by \<open>f\<close> alone, and
  \<open>f\<close> runs on the state \<open>w2\<close> that the statements before and after the declaration
  have left, that is, after all of them. The block completes as \<open>f\<close> does, through the
  destructor's \<^verbatim>\<open>noexcept\<close>.
\<close>

theorem C1_exactly_once_on_normal_exit:
  assumes "exec_all pre (world s) = (Normal, w1)"
    and "exec_all post w1 = (Normal, w2)"
  shows "run_block (map Exec pre @ Decl x (Make f) # map Exec post) s =
           Some (noexcept (fst (f w2)),
                 \<lparr>world = snd (f w2), invoked = invoked s @ [f]\<rparr>)"
proof -
  have "run_block (map Exec pre @ Decl x (Make f) # map Exec post) s =
          run (Decl x (Make f) # map Exec post @ []) [] (s\<lparr>world := w1\<rparr>)"
    using assms(1) by (simp add: run_block_def run_Exec_list)
  also have "\<dots> = run (map Exec post @ []) [(x, MakeScopeGuard f)] (s\<lparr>world := w1\<rparr>)"
    by simp
  also have "\<dots> = Some (leave_scope [(x, MakeScopeGuard f)] (s\<lparr>world := w2\<rparr>))"
    using assms(2) by (simp only: run_Exec_list) simp
  also have "leave_scope [(x, MakeScopeGuard f)] (s\<lparr>world := w2\<rparr>) =
      (noexcept (fst (f w2)), \<lparr>world = snd (f w2), invoked = invoked s @ [f]\<rparr>)"
    by (cases "f w2"; cases "fst (f w2)")
       (simp_all add: leave_scope_def MakeScopeGuard_def ScopeGuard_ctor_def dtor_armed noexcept_def)
  finally show ?thesis .
qed

theorem C1_witness:
  "exec_all [\<lambda>w. (Normal, w + 1)] (world \<lparr>world = 0::nat, invoked = []\<rparr>)
     = (Normal :: nat completion, 1)
   \<and> exec_all [\<lambda>w. (Normal, w * 5)] (1::nat) = (Normal :: nat completion, 5)
   \<and> run_block (map Exec [\<lambda>w. (Normal, w + 1)] @ Decl ''guard'' (Make (\<lambda>w. (Normal, w + 2)))
                  # map Exec [\<lambda>w. (Normal, w * 5)]) \<lparr>world = 0::nat, invoked = []\<rparr>
       = Some (Normal :: nat completion, \<lparr>world = 7, invoked = [\<lambda>w. (Normal, w + 2)]\<rparr>)"
proof -
  have h1: "exec_all [\<lambda>w. (Normal, w + 1)] (world \<lparr>world = 0::nat, invoked = []\<rparr>)
              = (Normal :: nat completion, 1)"
    by simp
  have h2: "exec_all [\<lambda>w. (Normal, w * 5)] (1::nat) = (Normal :: nat completion, 5)"
    by simp
  note t = C1_exactly_once_on_normal_exit
    [where x = "''guard''" and f = "\<lambda>w. (Normal, w + 2)", OF h1 h2]
  have "run_block (map Exec [\<lambda>w. (Normal, w + 1)] @ Decl ''guard'' (Make (\<lambda>w. (Normal, w + 2)))
                  # map Exec [\<lambda>w. (Normal, w * 5)]) \<lparr>world = 0::nat, invoked = []\<rparr>
       = Some (Normal :: nat completion, \<lparr>world = 7, invoked = [\<lambda>w. (Normal, w + 2)]\<rparr>)"
    by (rule trans [OF t]) (simp add: noexcept_def)
  with h1 h2 show ?thesis by (intro conjI)
qed

subsection \<open>Exactly once when an exception leaves the block\<close>

text \<open>
  Claim C2. As before, but a statement after the declaration throws \<open>e\<close> (the statements
  \<open>rest\<close> behind it are never reached). The guard was not dismissed, so unwinding
  destroys it: \<open>f\<close> is invoked exactly once, on the state the throwing statement left,
  and when \<open>f\<close> returns the block completes with \<open>Thrown e\<close>: the exception leaves the
  block after \<open>f\<close> has run. (If \<open>f\<close> itself does not return, the \<^verbatim>\<open>noexcept\<close> destructor
  ends the program; \<open>f\<close> has still been invoked once.)
\<close>

theorem C2_exactly_once_on_unwind:
  assumes "exec_all pre (world s) = (Normal, w1)"
    and "exec_all post w1 = (Thrown e, w2)"
  shows "run_block (map Exec pre @ Decl x (Make f) # map Exec post @ rest) s =
           Some (case fst (f w2) of Normal \<Rightarrow> Thrown e | _ \<Rightarrow> Terminated,
                 \<lparr>world = snd (f w2), invoked = invoked s @ [f]\<rparr>)"
proof -
  have "run_block (map Exec pre @ Decl x (Make f) # map Exec post @ rest) s =
          run (Decl x (Make f) # map Exec post @ rest) [] (s\<lparr>world := w1\<rparr>)"
    using assms(1) by (simp add: run_block_def run_Exec_list)
  also have "\<dots> = run (map Exec post @ rest) [(x, MakeScopeGuard f)] (s\<lparr>world := w1\<rparr>)"
    by simp
  also have "\<dots> = Some (unwind e [(x, MakeScopeGuard f)] (s\<lparr>world := w2\<rparr>))"
    using assms(2) by (simp only: run_Exec_list) simp
  also have "unwind e [(x, MakeScopeGuard f)] (s\<lparr>world := w2\<rparr>) =
      (case fst (f w2) of Normal \<Rightarrow> Thrown e | _ \<Rightarrow> Terminated,
       \<lparr>world = snd (f w2), invoked = invoked s @ [f]\<rparr>)"
    by (cases "fst (f w2)")
       (simp_all add: unwind_def leave_scope_single dtor_Make noexcept_def)
  finally show ?thesis .
qed

theorem C2_witness:
  "exec_all [] (world \<lparr>world = 0::nat, invoked = []\<rparr>) = (Normal :: nat completion, 0)
   \<and> exec_all [\<lambda>w. (Thrown 9, w + 1)] (0::nat) = (Thrown (9::nat), 1)
   \<and> run_block (map Exec [] @ Decl ''guard'' (Make (\<lambda>w. (Normal, w + 2)))
                  # map Exec [\<lambda>w. (Thrown 9, w + 1)] @ [Dismiss ''guard''])
         \<lparr>world = 0::nat, invoked = []\<rparr>
       = Some (Thrown (9::nat), \<lparr>world = 3, invoked = [\<lambda>w. (Normal, w + 2)]\<rparr>)"
proof -
  have h1: "exec_all [] (world \<lparr>world = 0::nat, invoked = []\<rparr>) = (Normal :: nat completion, 0)"
    by simp
  have h2: "exec_all [\<lambda>w. (Thrown 9, w + 1)] (0::nat) = (Thrown (9::nat), 1)"
    by simp
  note t = C2_exactly_once_on_unwind
    [where x = "''guard''" and f = "\<lambda>w. (Normal, w + 2)" and rest = "[Dismiss ''guard'']",
     OF h1 h2]
  have "run_block (map Exec [] @ Decl ''guard'' (Make (\<lambda>w. (Normal, w + 2)))
                  # map Exec [\<lambda>w. (Thrown 9, w + 1)] @ [Dismiss ''guard''])
         \<lparr>world = 0::nat, invoked = []\<rparr>
       = Some (Thrown (9::nat), \<lparr>world = 3, invoked = [\<lambda>w. (Normal, w + 2)]\<rparr>)"
    by (rule trans [OF t]) simp
  with h1 h2 show ?thesis by (intro conjI)
qed

subsection \<open>Move construction\<close>

text \<open>
  Claim C3. A block declares guard \<open>a\<close> over \<open>f\<close> with the factory and move-constructs
  \<open>b\<close> from it; both reach the end of the block. Then \<open>f\<close> is invoked exactly once in
  total. It is the destructor of the new guard that invokes it: for every guard \<open>A\<close> and
  state, the destructor of the moved-from \<open>A\<close> does nothing at all, and the destructor of
  the guard constructed from \<open>A\<close> does what the destructor of \<open>A\<close> would have done
  before the move. So of the two, only the new one can ever invoke the action.
\<close>

theorem C3_move_transfers_obligation:
  assumes "a \<noteq> b"
    and "exec_all post (world s) = (Normal, w)"
  shows "run_block (Decl a (Make f) # Decl b (MoveFrom a husk) # map Exec post) s =
           Some (noexcept (fst (f w)), \<lparr>world = snd (f w), invoked = invoked s @ [f]\<rparr>)
         \<and> (\<forall>A t. ScopeGuard_dtor (snd (ScopeGuard_move husk A)) t = (Normal, t))
         \<and> (\<forall>A t. ScopeGuard_dtor (fst (ScopeGuard_move husk A)) t = ScopeGuard_dtor A t)"
proof -
  obtain B A' where m: "ScopeGuard_move husk (MakeScopeGuard f) = (B, A')"
    by (cases "ScopeGuard_move husk (MakeScopeGuard f)")
  have B: "ScopeGuard_dtor B t = ScopeGuard_dtor (MakeScopeGuard f) t" for t
    using dtor_moved_to [of husk "MakeScopeGuard f" t] m by simp
  have A': "ScopeGuard_dtor A' t = (Normal, t)" for t
    using dtor_moved_from [of husk "MakeScopeGuard f" t] m by simp
  have "run_block (Decl a (Make f) # Decl b (MoveFrom a husk) # map Exec post) s =
          run (map Exec post @ []) [(a, A'), (b, B)] s"
    using assms(1) m by (simp add: run_block_def)
  also have "\<dots> = Some (leave_scope [(a, A'), (b, B)] (s\<lparr>world := w\<rparr>))"
    using assms(2) by (simp only: run_Exec_list) simp
  also have "leave_scope [(a, A'), (b, B)] (s\<lparr>world := w\<rparr>) =
      (noexcept (fst (f w)), \<lparr>world = snd (f w), invoked = invoked s @ [f]\<rparr>)"
    by (cases "fst (f w)")
       (simp_all add: leave_scope_def destroy_two A' B dtor_Make noexcept_def)
  finally show ?thesis
    by (simp add: dtor_moved_from dtor_moved_to)
qed

theorem C3_witness:
  "''A'' \<noteq> ''B''
   \<and> exec_all [\<lambda>w. (Normal, w + 1)] (world \<lparr>world = 0::nat, invoked = []\<rparr>)
       = (Normal :: nat completion, 1)
   \<and> run_block (Decl ''A'' (Make (\<lambda>w. (Normal, w + 2))) # Decl ''B'' (MoveFrom ''A'' (\<lambda>f. f))
                  # map Exec [\<lambda>w. (Normal, w + 1)]) \<lparr>world = 0::nat, invoked = []\<rparr>
       = Some (Normal :: nat completion, \<lparr>world = 3, invoked = [\<lambda>w. (Normal, w + 2)]\<rparr>)"
proof -
  have h1: "''A'' \<noteq> ''B''"
    by simp
  have h2: "exec_all [\<lambda>w. (Normal, w + 1)] (world \<lparr>world = 0::nat, invoked = []\<rparr>)
              = (Normal :: nat completion, 1)"
    by simp
  note t = C3_move_transfers_obligation
    [where f = "\<lambda>w. (Normal, w + 2)" and husk = "\<lambda>f. f", OF h1 h2, THEN conjunct1]
  have "run_block (Decl ''A'' (Make (\<lambda>w. (Normal, w + 2))) # Decl ''B'' (MoveFrom ''A'' (\<lambda>f. f))
                  # map Exec [\<lambda>w. (Normal, w + 1)]) \<lparr>world = 0::nat, invoked = []\<rparr>
       = Some (Normal :: nat completion, \<lparr>world = 3, invoked = [\<lambda>w. (Normal, w + 2)]\<rparr>)"
    by (rule trans [OF t]) (simp add: noexcept_def)
  with h1 h2 show ?thesis by (intro conjI)
qed

subsection \<open>dismiss\<close>

text \<open>
  Claim C4. Calling \<^verbatim>\<open>dismiss()\<close> \<open>n \<ge> 1\<close> times leaves a guard exactly as calling it
  once does, and the destructor of the guard then invokes nothing: it returns normally
  with the state and the history unchanged. In a block: a guard made by the factory and
  dismissed \<open>n\<close> times leaves the block without \<open>f\<close> having been invoked.
\<close>

theorem C4_dismiss_idempotent:
  assumes "1 \<le> n"
  shows "(dismiss ^^ n) g = dismiss g
         \<and> ScopeGuard_dtor ((dismiss ^^ n) g) s = (Normal, s)
         \<and> run_block (Decl x (Make f) # replicate n (Dismiss x)) s = Some (Normal, s)"
proof -
  from assms obtain k where n: "n = Suc k" by (cases n) simp_all
  have 1: "(dismiss ^^ n) h = dismiss h" for h :: "('a, 'b) ScopeGuard"
    unfolding n by (rule dismiss_funpow)
  have 2: "ScopeGuard_dtor (dismiss h) t = (Normal, t)" for h :: "('a, 'b) ScopeGuard" and t
    by (simp add: dismiss_def dtor_dismissed)
  have "run_block (Decl x (Make f) # replicate n (Dismiss x)) s =
          run (replicate n (Dismiss x) @ []) [(x, MakeScopeGuard f)] s"
    by (simp add: run_block_def)
  also have "\<dots> = run [] [(x, (dismiss ^^ n) (MakeScopeGuard f))] s"
    by (rule run_Dismiss_replicate)
  also have "\<dots> = Some (Normal, s)"
    by (simp add: 1 2 leave_scope_single)
  finally show ?thesis by (simp add: 1 2)
qed

theorem C4_witness:
  "(1::nat) \<le> 3
   \<and> (dismiss ^^ 3) (MakeScopeGuard (\<lambda>w. (Normal :: nat completion, w + (2::nat))))
       = dismiss (MakeScopeGuard (\<lambda>w. (Normal, w + 2)))
   \<and> ScopeGuard_dtor ((dismiss ^^ 3) (MakeScopeGuard (\<lambda>w. (Normal :: nat completion, w + (2::nat)))))
         \<lparr>world = 0, invoked = []\<rparr>
       = (Normal, \<lparr>world = 0, invoked = []\<rparr>)
   \<and> run_block (Decl ''guard'' (Make (\<lambda>w. (Normal :: nat completion, w + (2::nat))))
                  # replicate 3 (Dismiss ''guard'')) \<lparr>world = 0, invoked = []\<rparr>
       = Some (Normal, \<lparr>world = 0, invoked = []\<rparr>)"
proof -
  have h: "(1::nat) \<le> 3"
    by simp
  show ?thesis
    by (rule conjI [OF h C4_dismiss_idempotent [OF h]])
qed

subsection \<open>Move construction keeps the flag\<close>

text \<open>
  Claim C5. The guard constructed by moving from \<open>A\<close> has the \<^verbatim>\<open>_dismiss\<close> flag and the
  callback that \<open>A\<close> had at the moment of the move. In particular the destructor of a
  guard moved from a dismissed guard invokes nothing, and a block that makes \<open>a\<close>,
  dismisses it and moves it into \<open>b\<close> ends with the state and the history unchanged:
  \<open>f\<close> is invoked zero times.
\<close>

theorem C5_move_preserves_state:
  assumes "a \<noteq> b"
  shows "m_dismiss (fst (ScopeGuard_move husk A)) = m_dismiss A
         \<and> m_callback (fst (ScopeGuard_move husk A)) = m_callback A
         \<and> ScopeGuard_dtor (fst (ScopeGuard_move husk (dismiss A))) s = (Normal, s)
         \<and> run_block [Decl a (Make f), Dismiss a, Decl b (MoveFrom a husk)] s = Some (Normal, s)"
proof -
  have 1: "ScopeGuard_dtor (fst (ScopeGuard_move husk (dismiss G))) t = (Normal, t)"
    for G :: "('a, 'b) ScopeGuard" and t
    by (simp add: dtor_moved_to dismiss_def dtor_dismissed)
  obtain B A' where m: "ScopeGuard_move husk (dismiss (MakeScopeGuard f)) = (B, A')"
    by (cases "ScopeGuard_move husk (dismiss (MakeScopeGuard f))")
  have B: "ScopeGuard_dtor B t = (Normal, t)" for t
    using 1 [of "MakeScopeGuard f" t] m by simp
  have A': "ScopeGuard_dtor A' t = (Normal, t)" for t
    using dtor_moved_from [of husk "dismiss (MakeScopeGuard f)" t] m by simp
  have "run_block [Decl a (Make f), Dismiss a, Decl b (MoveFrom a husk)] s =
          Some (leave_scope [(a, A'), (b, B)] s)"
    using assms m by (simp add: run_block_def)
  also have "leave_scope [(a, A'), (b, B)] s = (Normal, s)"
    by (simp add: leave_scope_def destroy_two A' B)
  finally show ?thesis
    by (simp add: 1) (simp add: ScopeGuard_move_def)
qed

theorem C5_witness:
  "''A'' \<noteq> ''B''
   \<and> run_block [Decl ''A'' (Make (\<lambda>w. (Normal :: nat completion, w + (2::nat)))), Dismiss ''A'',
                 Decl ''B'' (MoveFrom ''A'' (\<lambda>f. f))] \<lparr>world = 0, invoked = []\<rparr>
       = Some (Normal, \<lparr>world = 0, invoked = []\<rparr>)"
proof -
  have h: "''A'' \<noteq> ''B''"
    by simp
  note t = C5_move_preserves_state
    [where A = "MakeScopeGuard (\<lambda>w. (Normal :: nat completion, w + (2::nat)))"
       and s = "\<lparr>world = 0::nat, invoked = []\<rparr>", OF h,
     THEN conjunct2, THEN conjunct2, THEN conjunct2]
  show ?thesis
    by (rule conjI [OF h t])
qed

subsection \<open>The factory\<close>




subsection \<open>Disarming is final\<close>

text \<open>
  Claim C7. \<^verbatim>\<open>dismiss()\<close> and being moved from both leave a guard disarmed. Once a guard
  is disarmed, it stays disarmed through any sequence of further \<^verbatim>\<open>dismiss()\<close> calls
  and moves out of it, and its destructor then invokes nothing: no member function
  sets \<^verbatim>\<open>_dismiss\<close> back to false.
\<close>

theorem C7_disarming_irreversible:
  assumes "m_dismiss g"
  shows "m_dismiss (foldl apply_op g ops)
         \<and> ScopeGuard_dtor (foldl apply_op g ops) s = (Normal, s)
         \<and> m_dismiss (dismiss h)
         \<and> m_dismiss (snd (ScopeGuard_move husk h))"
  using assms
  by (simp add: foldl_apply_op_dismissed dtor_dismissed dismiss_def ScopeGuard_move_def)

theorem C7_witness:
  "m_dismiss (dismiss (MakeScopeGuard (\<lambda>w. (Normal :: nat completion, w + (2::nat)))))
   \<and> m_dismiss (foldl apply_op (dismiss (MakeScopeGuard (\<lambda>w. (Normal :: nat completion, w + (2::nat)))))
                  [Call_dismiss, Moved_from (\<lambda>f. f), Call_dismiss])
   \<and> ScopeGuard_dtor
         (foldl apply_op (dismiss (MakeScopeGuard (\<lambda>w. (Normal :: nat completion, w + (2::nat)))))
            [Call_dismiss, Moved_from (\<lambda>f. f), Call_dismiss])
         \<lparr>world = 0, invoked = []\<rparr>
       = (Normal, \<lparr>world = 0, invoked = []\<rparr>)"
proof -
  have h: "m_dismiss (dismiss (MakeScopeGuard (\<lambda>w. (Normal :: nat completion, w + (2::nat)))))"
    by (simp add: dismiss_def)
  note t = C7_disarming_irreversible [OF h]
  show ?thesis
    by (intro conjI h t [THEN conjunct1] t [THEN conjunct2, THEN conjunct1])
qed

subsection \<open>BRPC_SCOPE_EXIT twice in one block\<close>

text \<open>
  Claim C9. A block uses \<^verbatim>\<open>BRPC_SCOPE_EXIT\<close> twice, with bodies \<open>f\<close> and then \<open>g\<close>,
  among ordinary statements that all return. The preprocessor turns the two uses into
  two declarations named \<^verbatim>\<open>SCOPE_EXIT\<close> followed by the counter's value and by its
  successor. The two names differ; more generally the generated name is an injective
  function of the counter, and each expansion increases the counter. The block is
  well-formed (no name is declared twice), and at its end the body declared last runs
  first: provided \<open>g\<close> returns, the history grows by the lambda of \<open>g\<close> and then the
  lambda of \<open>f\<close>, each exactly once, \<open>f\<close> running on the state that \<open>g\<close> left.
\<close>

theorem C9_sugar_twice_in_one_block:
  assumes "exec_all pre (world s) = (Normal, w1)"
    and "exec_all mid w1 = (Normal, w2)"
    and "exec_all post w2 = (Normal, w3)"
    and "g w3 = (Normal, w4)"
  shows "preprocess (map (Stmt \<circ> Exec) pre @ ScopeExit f # map (Stmt \<circ> Exec) mid
                       @ ScopeExit g # map (Stmt \<circ> Exec) post) c =
           map Exec pre @ Decl (''SCOPE_EXIT'' @ decimal c) (Plus (noexcept_lambda f))
             # map Exec mid @ Decl (''SCOPE_EXIT'' @ decimal (Suc c)) (Plus (noexcept_lambda g))
             # map Exec post
         \<and> ''SCOPE_EXIT'' @ decimal c \<noteq> ''SCOPE_EXIT'' @ decimal (Suc c)
         \<and> inj (\<lambda>k. fst (BRPC_ANONYMOUS_VARIABLE ''SCOPE_EXIT'' k))
         \<and> snd (BRPC_ANONYMOUS_VARIABLE ''SCOPE_EXIT'' c) = Suc c
         \<and> run_block (preprocess (map (Stmt \<circ> Exec) pre @ ScopeExit f # map (Stmt \<circ> Exec) mid
                                    @ ScopeExit g # map (Stmt \<circ> Exec) post) c) s =
             Some (noexcept (fst (f w4)),
                   \<lparr>world = snd (f w4),
                    invoked = invoked s @ [noexcept_lambda g, noexcept_lambda f]\<rparr>)"
proof -
  let ?n1 = "''SCOPE_EXIT'' @ decimal c" and ?n2 = "''SCOPE_EXIT'' @ decimal (Suc c)"
  let ?F = "ScopeExitHelper_plus (noexcept_lambda f)"
  let ?G = "ScopeExitHelper_plus (noexcept_lambda g)"
  let ?block = "map Exec pre @ Decl ?n1 (Plus (noexcept_lambda f))
             # map Exec mid @ Decl ?n2 (Plus (noexcept_lambda g)) # map Exec post @ []"
  have pp: "preprocess (map (Stmt \<circ> Exec) pre @ ScopeExit f # map (Stmt \<circ> Exec) mid
                       @ ScopeExit g # map (Stmt \<circ> Exec) post) c = ?block"
    using preprocess_Exec [of post "[]"]
    by (simp add: preprocess_Exec BRPC_SCOPE_EXIT_def BRPC_ANONYMOUS_VARIABLE_def BAIDU_CONCAT_def)
  have ne: "?n1 \<noteq> ?n2"
    using decimal_inj [of c "Suc c"] by auto
  have "run ?block [] s =
          run (Decl ?n1 (Plus (noexcept_lambda f))
             # map Exec mid @ Decl ?n2 (Plus (noexcept_lambda g)) # map Exec post @ []) []
             (s\<lparr>world := w1\<rparr>)"
    using assms(1) by (simp only: run_Exec_list) simp
  also have "\<dots> = run (map Exec mid @ Decl ?n2 (Plus (noexcept_lambda g)) # map Exec post @ [])
                     [(?n1, ?F)] (s\<lparr>world := w1\<rparr>)"
    by simp
  also have "\<dots> = run (Decl ?n2 (Plus (noexcept_lambda g)) # map Exec post @ [])
                     [(?n1, ?F)] (s\<lparr>world := w2\<rparr>)"
    using assms(2) by (simp only: run_Exec_list) simp
  also have "\<dots> = run (map Exec post @ []) [(?n1, ?F), (?n2, ?G)] (s\<lparr>world := w2\<rparr>)"
    using ne by simp
  also have "\<dots> = Some (leave_scope [(?n1, ?F), (?n2, ?G)] (s\<lparr>world := w3\<rparr>))"
    using assms(3) by (simp only: run_Exec_list) simp
  also have "leave_scope [(?n1, ?F), (?n2, ?G)] (s\<lparr>world := w3\<rparr>) =
      (noexcept (fst (f w4)),
       \<lparr>world = snd (f w4), invoked = invoked s @ [noexcept_lambda g, noexcept_lambda f]\<rparr>)"
    using assms(4)
    by (cases "fst (f w4)")
       (simp_all add: leave_scope_def destroy_two dtor_Plus_lambda noexcept_def)
  finally have r: "run ?block [] s =
      Some (noexcept (fst (f w4)),
            \<lparr>world = snd (f w4), invoked = invoked s @ [noexcept_lambda g, noexcept_lambda f]\<rparr>)" .
  show ?thesis
    using pp ne r anonymous_name_inj [of "''SCOPE_EXIT''"]
    by (simp add: run_block_def BRPC_ANONYMOUS_VARIABLE_def)
qed

theorem C9_witness:
  "exec_all [] (world \<lparr>world = 0::nat, invoked = []\<rparr>) = (Normal :: nat completion, 0)
   \<and> exec_all [\<lambda>w. (Normal, w + 1)] (0::nat) = (Normal :: nat completion, 1)
   \<and> exec_all [] (1::nat) = (Normal :: nat completion, 1)
   \<and> (\<lambda>w. (Normal :: nat completion, w + (3::nat))) 1 = (Normal, 4)
   \<and> ''SCOPE_EXIT'' @ decimal 0 \<noteq> ''SCOPE_EXIT'' @ decimal (Suc 0)
   \<and> run_block (preprocess (map (Stmt \<circ> Exec) [] @ ScopeExit (\<lambda>w. (Normal, w * 2))
                    # map (Stmt \<circ> Exec) [\<lambda>w. (Normal, w + 1)]
                    @ ScopeExit (\<lambda>w. (Normal, w + 3)) # map (Stmt \<circ> Exec) []) 0)
         \<lparr>world = 0::nat, invoked = []\<rparr>
       = Some (Normal :: nat completion,
               \<lparr>world = 8,
                invoked = [noexcept_lambda (\<lambda>w. (Normal, w + 3)),
                           noexcept_lambda (\<lambda>w. (Normal, w * 2))]\<rparr>)"
proof -
  have h1: "exec_all [] (world \<lparr>world = 0::nat, invoked = []\<rparr>) = (Normal :: nat completion, 0)"
    by simp
  have h2: "exec_all [\<lambda>w. (Normal, w + 1)] (0::nat) = (Normal :: nat completion, 1)"
    by simp
  have h3: "exec_all [] (1::nat) = (Normal :: nat completion, 1)"
    by simp
  have h4: "(\<lambda>w. (Normal :: nat completion, w + (3::nat))) 1 = (Normal, 4)"
    by simp
  note t = C9_sugar_twice_in_one_block
    [where f = "\<lambda>w. (Normal, w * 2)" and g = "\<lambda>w. (Normal, w + 3)" and c = 0, OF h1 h2 h3 h4]
  note names = t [THEN conjunct2, THEN conjunct1]
  note r = t [THEN conjunct2, THEN conjunct2, THEN conjunct2, THEN conjunct2]
  have "run_block (preprocess (map (Stmt \<circ> Exec) [] @ ScopeExit (\<lambda>w. (Normal, w * 2))
                    # map (Stmt \<circ> Exec) [\<lambda>w. (Normal, w + 1)]
                    @ ScopeExit (\<lambda>w. (Normal, w + 3)) # map (Stmt \<circ> Exec) []) 0)
         \<lparr>world = 0::nat, invoked = []\<rparr>
       = Some (Normal :: nat completion,
               \<lparr>world = 8,
                invoked = [noexcept_lambda (\<lambda>w. (Normal, w + 3)),
                           noexcept_lambda (\<lambda>w. (Normal, w * 2))]\<rparr>)"
    by (rule trans [OF r]) (simp add: noexcept_def)
  with h1 h2 h3 h4 names show ?thesis by (intro conjI)
qed

subsection \<open>The lambda of BRPC_SCOPE_EXIT is noexcept\<close>

text \<open>
  Claim C10. \<^verbatim>\<open>BRPC_SCOPE_EXIT\<close> declares a guard whose callback is the caller's block
  wrapped in a \<^verbatim>\<open>noexcept\<close> lambda. The lambda runs the caller's block on the state in
  which it is called and leaves the state the block leaves; it returns when the block
  returns, and when the block throws, \<^verbatim>\<open>std::terminate\<close> is called. The capture is by
  reference: in a block that goes on with ordinary statements after the declaration,
  the caller's block runs, at the end, on the state \<open>w\<close> that those statements have
  left. So a call of this callback never completes by throwing, and neither does the
  destructor of the guard. The factory does no such wrapping: it stores the callable it
  is given as it is, also one that throws (and when such a callable throws in the
  destructor, the destructor's own \<^verbatim>\<open>noexcept\<close> ends the program).
\<close>

theorem C10_sugar_lambda_is_noexcept:
  assumes "exec_all post (world s) = (Normal, w)"
  shows "fst (BRPC_SCOPE_EXIT body c) =
           Decl (''SCOPE_EXIT'' @ decimal c) (Plus (noexcept_lambda body))
         \<and> eval_init (Plus (noexcept_lambda body)) L =
             Some (MakeScopeGuard (noexcept_lambda body), L)
         \<and> noexcept_lambda body v =
             (case body v of
                (Normal, v') \<Rightarrow> (Normal, v')
              | (Thrown x, v') \<Rightarrow> (Terminated, v')
              | (Terminated, v') \<Rightarrow> (Terminated, v'))
         \<and> run_block (fst (BRPC_SCOPE_EXIT body c) # map Exec post) s =
             Some (fst (noexcept_lambda body w),
                   \<lparr>world = snd (noexcept_lambda body w),
                    invoked = invoked s @ [noexcept_lambda body]\<rparr>)
         \<and> fst (m_callback (MakeScopeGuard (noexcept_lambda body)) v) \<noteq> Thrown e
         \<and> fst (ScopeGuard_dtor (MakeScopeGuard (noexcept_lambda body)) t) \<noteq> Thrown e
         \<and> m_callback (MakeScopeGuard f) = f
         \<and> fst (m_callback (MakeScopeGuard (\<lambda>u. (Thrown e, u))) v) = Thrown e
         \<and> fst (ScopeGuard_dtor (MakeScopeGuard (\<lambda>u. (Thrown e, u))) t) = Terminated"
proof -
  let ?name = "''SCOPE_EXIT'' @ decimal c"
  let ?G = "ScopeExitHelper_plus (noexcept_lambda body)"
  have 1: "fst (BRPC_SCOPE_EXIT body c) = Decl ?name (Plus (noexcept_lambda body))"
    by (simp add: BRPC_SCOPE_EXIT_def BRPC_ANONYMOUS_VARIABLE_def BAIDU_CONCAT_def)
  have 2: "eval_init (Plus (noexcept_lambda body)) L =
             Some (MakeScopeGuard (noexcept_lambda body), L)"
    by (simp add: ScopeExitHelper_plus_def)
  have 4: "fst (noexcept_lambda body v) \<noteq> Thrown e"
    by (cases "body v") (simp add: noexcept_lambda_def noexcept_not_Thrown)
  have 5: "fst (m_callback (MakeScopeGuard (noexcept_lambda body)) v) \<noteq> Thrown e"
    using 4 by (simp add: MakeScopeGuard_def ScopeGuard_ctor_def)
  have 6: "fst (m_callback (MakeScopeGuard (\<lambda>u. (Thrown e, u))) v) = Thrown e"
    by (simp add: MakeScopeGuard_def ScopeGuard_ctor_def)
  have 7: "fst (ScopeGuard_dtor (MakeScopeGuard (\<lambda>u. (Thrown e, u))) t) = Terminated"
    by (simp add: dtor_Make noexcept_def)
  have 8: "m_callback (MakeScopeGuard f) = f"
    by (simp add: MakeScopeGuard_def ScopeGuard_ctor_def)
  have 9: "noexcept_lambda body v =
             (case body v of
                (Normal, v') \<Rightarrow> (Normal, v')
              | (Thrown x, v') \<Rightarrow> (Terminated, v')
              | (Terminated, v') \<Rightarrow> (Terminated, v'))"
    by (cases "body v"; cases "fst (body v)") (simp_all add: noexcept_lambda_def noexcept_def)
  have "run_block (Decl ?name (Plus (noexcept_lambda body)) # map Exec post) s =
          run (map Exec post @ []) [(?name, ?G)] s"
    by (simp add: run_block_def)
  also have "\<dots> = Some (leave_scope [(?name, ?G)] (s\<lparr>world := w\<rparr>))"
    using assms by (simp only: run_Exec_list) simp
  also have "leave_scope [(?name, ?G)] (s\<lparr>world := w\<rparr>) =
      (fst (noexcept_lambda body w),
       \<lparr>world = snd (noexcept_lambda body w), invoked = invoked s @ [noexcept_lambda body]\<rparr>)"
  proof -
    have a: "leave_scope [(?name, ?G)] (s\<lparr>world := w\<rparr>) =
        (noexcept (fst (body w)),
         \<lparr>world = snd (body w), invoked = invoked s @ [noexcept_lambda body]\<rparr>)"
      by (simp add: leave_scope_single dtor_Plus_lambda)
    have b: "fst (noexcept_lambda body w) = noexcept (fst (body w))"
      by (cases "body w") (simp add: noexcept_lambda_def)
    have c: "snd (noexcept_lambda body w) = snd (body w)"
      by (cases "body w") (simp add: noexcept_lambda_def)
    show ?thesis
      by (simp only: a b c)
  qed
  finally have 10: "run_block (fst (BRPC_SCOPE_EXIT body c) # map Exec post) s =
      Some (fst (noexcept_lambda body w),
            \<lparr>world = snd (noexcept_lambda body w), invoked = invoked s @ [noexcept_lambda body]\<rparr>)"
    unfolding 1 .
  show ?thesis
    by (intro conjI 1 2 5 6 7 8 9 10 dtor_not_Thrown)
qed

theorem C10_witness:
  "exec_all [\<lambda>w. (Normal, w + 1)] (world \<lparr>world = 0::nat, invoked = []\<rparr>)
     = (Normal :: nat completion, 1)
   \<and> run_block (fst (BRPC_SCOPE_EXIT (\<lambda>w. (Normal, w * 2)) 0) # map Exec [\<lambda>w. (Normal, w + 1)])
        \<lparr>world = 0::nat, invoked = []\<rparr>
      = Some (Normal :: nat completion,
              \<lparr>world = 2, invoked = [noexcept_lambda (\<lambda>w. (Normal, w * 2))]\<rparr>)
   \<and> run_block (fst (BRPC_SCOPE_EXIT (\<lambda>w. (Thrown 7, w * 2)) 0) # map Exec [\<lambda>w. (Normal, w + 1)])
        \<lparr>world = 0::nat, invoked = []\<rparr>
      = Some (Terminated :: nat completion,
              \<lparr>world = 2, invoked = [noexcept_lambda (\<lambda>w. (Thrown 7, w * 2))]\<rparr>)"
proof -
  have h: "exec_all [\<lambda>w. (Normal, w + 1)] (world \<lparr>world = 0::nat, invoked = []\<rparr>)
             = (Normal :: nat completion, 1)"
    by simp
  note returns = C10_sugar_lambda_is_noexcept
    [where body = "\<lambda>w. (Normal, w * 2)" and c = 0, OF h,
     THEN conjunct2, THEN conjunct2, THEN conjunct2, THEN conjunct1]
  note throws = C10_sugar_lambda_is_noexcept
    [where body = "\<lambda>w. (Thrown 7, w * 2)" and c = 0, OF h,
     THEN conjunct2, THEN conjunct2, THEN conjunct2, THEN conjunct1]
  have r: "run_block (fst (BRPC_SCOPE_EXIT (\<lambda>w. (Normal, w * 2)) 0) # map Exec [\<lambda>w. (Normal, w + 1)])
        \<lparr>world = 0::nat, invoked = []\<rparr>
      = Some (Normal :: nat completion,
              \<lparr>world = 2, invoked = [noexcept_lambda (\<lambda>w. (Normal, w * 2))]\<rparr>)"
    by (rule trans [OF returns]) (simp add: noexcept_lambda_def noexcept_def)
  have u: "run_block (fst (BRPC_SCOPE_EXIT (\<lambda>w. (Thrown 7, w * 2)) 0) # map Exec [\<lambda>w. (Normal, w + 1)])
        \<lparr>world = 0::nat, invoked = []\<rparr>
      = Some (Terminated :: nat completion,
              \<lparr>world = 2, invoked = [noexcept_lambda (\<lambda>w. (Thrown 7, w * 2))]\<rparr>)"
    by (rule trans [OF throws]) (simp add: noexcept_lambda_def noexcept_def)
  show ?thesis
    by (intro conjI h r u)
qed

end
